theory Spec2Isabelle
  imports Complex_Main "HOL-Library.Sublist"
begin

text \<open>
  A model of the canvas editing code of the plugin: the operation executor
  (\<^verbatim>\<open>executeCanvasOperations\<close> and the five \<^verbatim>\<open>execute...\<close> functions), the
  containment edges of \<^verbatim>\<open>CanvasLoader\<close>, and the streaming parser
  \<^verbatim>\<open>CanvasOperationStreamer\<close>, followed by the properties proved of them.
\<close>

section \<open>JavaScript values used by the canvas code\<close>

text \<open>
  Strings are lists of code units; the model's alphabet is the code units 0 to 255
  (\<^typ>\<open>char\<close>). An optional property (\<^verbatim>\<open>color?: string\<close>) is an
  \<^typ>\<open>string option\<close>, \<^verbatim>\<open>undefined\<close> being \<^term>\<open>None\<close>.

  The numbers the streamer produces come from \<^verbatim>\<open>parseInt\<close>: an integer or
  \<^verbatim>\<open>NaN\<close>. Integers are unbounded here; the source's doubles agree with them
  below \<open>2 ^ 53\<close>.
\<close>

datatype number = NaN | Number int

text \<open>\<^verbatim>\<open>a || b\<close> on an optional string: the empty string and \<^verbatim>\<open>undefined\<close> are falsy.\<close>

definition falsy :: "string option \<Rightarrow> bool" where
  "falsy a = (case a of None \<Rightarrow> True | Some s \<Rightarrow> s = [])"

definition orString :: "string option \<Rightarrow> string \<Rightarrow> string" where
  "orString a b = (case a of None \<Rightarrow> b | Some s \<Rightarrow> if s = [] then b else s)"

definition orUndefined :: "string option \<Rightarrow> string option" where
  "orUndefined a = (case a of None \<Rightarrow> None | Some s \<Rightarrow> if s = [] then None else Some s)"

text \<open>\<^verbatim>\<open>Array.prototype.findIndex\<close>: the first index whose element passes, or \<open>-1\<close>.\<close>

fun findIndex :: "('a \<Rightarrow> bool) \<Rightarrow> 'a list \<Rightarrow> int" where
  "findIndex P [] = - 1"
| "findIndex P (x # xs) =
     (if P x then 0 else (let i = findIndex P xs in if i = - 1 then - 1 else i + 1))"

text \<open>\<^verbatim>\<open>xs.splice(i, 1)\<close> for an index in range.\<close>

definition splice1 :: "nat \<Rightarrow> 'a list \<Rightarrow> 'a list" where
  "splice1 i xs = take i xs @ drop (Suc i) xs"

section \<open>Operation types (CanvasOperationStreamer.ts)\<close>

record AddNodeOperation =
  an_id :: string
  an_nodeType :: string
  an_x :: number
  an_y :: number
  an_width :: number
  an_height :: number
  an_content :: "string option"
  an_file :: "string option"
  an_url :: "string option"
  an_label :: "string option"
  an_color :: "string option"

record NodeUpdates =
  u_x :: "number option"
  u_y :: "number option"
  u_width :: "number option"
  u_height :: "number option"
  u_content :: "string option"
  u_color :: "string option"
  u_label :: "string option"

record UpdateNodeOperation =
  un_id :: string
  updates :: NodeUpdates

record AddEdgeOperation =
  ae_id :: string
  ae_fromNode :: string
  ae_toNode :: string
  ae_fromSide :: "string option"
  ae_toSide :: "string option"
  ae_label :: "string option"
  ae_color :: "string option"

text \<open>
  The union \<^verbatim>\<open>CanvasOperation\<close>, discriminated by its \<^verbatim>\<open>type\<close> field. The last
  constructor is any value whose \<^verbatim>\<open>type\<close> is none of the five, which the
  \<^verbatim>\<open>default\<close> branches of the executor handle.
\<close>

datatype CanvasOperation =
    AddNode AddNodeOperation
  | UpdateNode UpdateNodeOperation
  | DeleteNode string
  | AddEdge AddEdgeOperation
  | DeleteEdge string
  | UnknownOperation string

section \<open>The canvas document and the operation executor\<close>

text \<open>
  A node of the JSON canvas, as one flat record with the kind-specific fields optional;
  \<open>n_type\<close> is the \<^verbatim>\<open>type\<close> discriminator as it stands in the file.
\<close>

record CanvasNode =
  n_id :: string
  n_type :: string
  n_x :: number
  n_y :: number
  n_width :: number
  n_height :: number
  n_color :: "string option"
  n_text :: "string option"
  n_file :: "string option"
  n_url :: "string option"
  n_label :: "string option"

record CanvasEdgeData =
  e_id :: string
  e_fromNode :: string
  e_toNode :: string
  e_fromSide :: "string option"
  e_toSide :: "string option"
  e_label :: "string option"
  e_color :: "string option"

record CanvasData =
  nodes :: "CanvasNode list"
  edges :: "CanvasEdgeData list"

record OperationResult =
  success :: bool
  error :: "string option"
  affectedIds :: "string list option"

definition failed :: "string \<Rightarrow> OperationResult" where
  "failed msg = \<lparr>success = False, error = Some msg, affectedIds = None\<rparr>"

definition succeeded :: "string list \<Rightarrow> OperationResult" where
  "succeeded ids = \<lparr>success = True, error = None, affectedIds = Some ids\<rparr>"

definition baseNode :: "AddNodeOperation \<Rightarrow> string \<Rightarrow> CanvasNode" where
  "baseNode op ty =
     \<lparr>n_id = an_id op, n_type = ty, n_x = an_x op, n_y = an_y op,
      n_width = an_width op, n_height = an_height op, n_color = an_color op,
      n_text = None, n_file = None, n_url = None, n_label = None\<rparr>"

definition pushNode :: "CanvasData \<Rightarrow> CanvasNode \<Rightarrow> CanvasData" where
  "pushNode canvasData newNode = canvasData\<lparr>nodes := nodes canvasData @ [newNode]\<rparr>"

definition executeAddNode :: "CanvasData \<Rightarrow> AddNodeOperation \<Rightarrow> OperationResult \<times> CanvasData" where
  \<open>executeAddNode canvasData op =
     (if list_ex (\<lambda>n. n_id n = an_id op) (nodes canvasData)
      then (failed (''Node with ID "'' @ an_id op @ ''" already exists''), canvasData)
      else if an_nodeType op = ''text''
      then (succeeded [an_id op],
            pushNode canvasData ((baseNode op ''text'')\<lparr>n_text := Some (orString (an_content op) '''')\<rparr>))
      else if an_nodeType op = ''file''
      then (if falsy (an_file op)
            then (failed ''File path required for file node'', canvasData)
            else (succeeded [an_id op],
                  pushNode canvasData ((baseNode op ''file'')\<lparr>n_file := an_file op\<rparr>)))
      else if an_nodeType op = ''link''
      then (if falsy (an_url op)
            then (failed ''URL required for link node'', canvasData)
            else (succeeded [an_id op],
                  pushNode canvasData ((baseNode op ''link'')\<lparr>n_url := an_url op\<rparr>)))
      else if an_nodeType op = ''group''
      then (succeeded [an_id op],
            pushNode canvasData ((baseNode op ''group'')\<lparr>n_label := an_label op\<rparr>))
      else (failed (''Unknown node type: '' @ an_nodeType op), canvasData))\<close>

text \<open>The assignments of \<^verbatim>\<open>executeUpdateNode\<close> to the node found, in source order.\<close>

definition applyUpdates :: "NodeUpdates \<Rightarrow> CanvasNode \<Rightarrow> CanvasNode" where
  "applyUpdates ups node0 =
     (let node1 = (case u_x ups of None \<Rightarrow> node0 | Some v \<Rightarrow> node0\<lparr>n_x := v\<rparr>);
          node2 = (case u_y ups of None \<Rightarrow> node1 | Some v \<Rightarrow> node1\<lparr>n_y := v\<rparr>);
          node3 = (case u_width ups of None \<Rightarrow> node2 | Some v \<Rightarrow> node2\<lparr>n_width := v\<rparr>);
          node4 = (case u_height ups of None \<Rightarrow> node3 | Some v \<Rightarrow> node3\<lparr>n_height := v\<rparr>);
          node5 = (case u_color ups of None \<Rightarrow> node4 | Some v \<Rightarrow> node4\<lparr>n_color := Some v\<rparr>);
          node6 = (if n_type node5 = ''text'' \<and> u_content ups \<noteq> None
                   then node5\<lparr>n_text := u_content ups\<rparr> else node5);
          node7 = (if n_type node6 = ''group'' \<and> u_label ups \<noteq> None
                   then node6\<lparr>n_label := u_label ups\<rparr> else node6)
      in node7)"

definition executeUpdateNode :: "CanvasData \<Rightarrow> UpdateNodeOperation \<Rightarrow> OperationResult \<times> CanvasData" where
  \<open>executeUpdateNode canvasData op =
     (let nodeIndex = findIndex (\<lambda>n. n_id n = un_id op) (nodes canvasData)
      in if nodeIndex = - 1
         then (failed (''Node with ID "'' @ un_id op @ ''" not found''), canvasData)
         else (succeeded [un_id op],
               canvasData\<lparr>nodes := (nodes canvasData)
                 [nat nodeIndex := applyUpdates (updates op) (nodes canvasData ! nat nodeIndex)]\<rparr>))\<close>

text \<open>
  The \<^verbatim>\<open>filter\<close> callback of \<^verbatim>\<open>executeDeleteNode\<close>, which pushes the id of every
  edge it drops onto \<^verbatim>\<open>removedEdgeIds\<close>.
\<close>

fun dropConnected :: "string \<Rightarrow> CanvasEdgeData list \<Rightarrow> string list \<Rightarrow> CanvasEdgeData list \<times> string list" where
  "dropConnected i [] removedEdgeIds = ([], removedEdgeIds)"
| "dropConnected i (edge # rest) removedEdgeIds =
     (if e_fromNode edge = i \<or> e_toNode edge = i
      then dropConnected i rest (removedEdgeIds @ [e_id edge])
      else (let (kept, removed) = dropConnected i rest removedEdgeIds in (edge # kept, removed)))"

definition executeDeleteNode :: "CanvasData \<Rightarrow> string \<Rightarrow> OperationResult \<times> CanvasData" where
  \<open>executeDeleteNode canvasData opId =
     (let nodeIndex = findIndex (\<lambda>n. n_id n = opId) (nodes canvasData)
      in if nodeIndex = - 1
         then (failed (''Node with ID "'' @ opId @ ''" not found''), canvasData)
         else (let (kept, removedEdgeIds) = dropConnected opId (edges canvasData) []
               in (succeeded (opId # removedEdgeIds),
                   \<lparr>nodes = splice1 (nat nodeIndex) (nodes canvasData), edges = kept\<rparr>)))\<close>

definition executeAddEdge :: "CanvasData \<Rightarrow> AddEdgeOperation \<Rightarrow> OperationResult \<times> CanvasData" where
  \<open>executeAddEdge canvasData op =
     (if \<not> list_ex (\<lambda>n. n_id n = ae_fromNode op) (nodes canvasData)
      then (failed (''Source node "'' @ ae_fromNode op @ ''" not found''), canvasData)
      else if \<not> list_ex (\<lambda>n. n_id n = ae_toNode op) (nodes canvasData)
      then (failed (''Target node "'' @ ae_toNode op @ ''" not found''), canvasData)
      else (succeeded [ae_id op],
            canvasData\<lparr>edges := edges canvasData @
              [\<lparr>e_id = ae_id op, e_fromNode = ae_fromNode op, e_toNode = ae_toNode op,
                e_fromSide = Some (orString (ae_fromSide op) ''right''),
                e_toSide = Some (orString (ae_toSide op) ''left''),
                e_label = ae_label op, e_color = ae_color op\<rparr>]\<rparr>))\<close>

definition executeDeleteEdge :: "CanvasData \<Rightarrow> string \<Rightarrow> OperationResult \<times> CanvasData" where
  \<open>executeDeleteEdge canvasData opId =
     (let edgeIndex = findIndex (\<lambda>e. e_id e = opId) (edges canvasData)
      in if edgeIndex = - 1
         then (failed (''Edge with ID "'' @ opId @ ''" not found''), canvasData)
         else (succeeded [opId],
               canvasData\<lparr>edges := splice1 (nat edgeIndex) (edges canvasData)\<rparr>))\<close>

text \<open>The \<^verbatim>\<open>switch (operation.type)\<close> shared by the single and the batch entry point.\<close>

fun dispatch :: "CanvasData \<Rightarrow> CanvasOperation \<Rightarrow> OperationResult \<times> CanvasData" where
  "dispatch canvasData (AddNode op) = executeAddNode canvasData op"
| "dispatch canvasData (UpdateNode op) = executeUpdateNode canvasData op"
| "dispatch canvasData (DeleteNode i) = executeDeleteNode canvasData i"
| "dispatch canvasData (AddEdge op) = executeAddEdge canvasData op"
| "dispatch canvasData (DeleteEdge i) = executeDeleteEdge canvasData i"
| "dispatch canvasData (UnknownOperation t) = (failed ''Unknown operation type'', canvasData)"

text \<open>The \<^verbatim>\<open>for\<close> loop of \<^verbatim>\<open>executeCanvasOperations\<close>: one document, results pushed in order.\<close>

fun runOperations :: "CanvasData \<Rightarrow> CanvasOperation list \<Rightarrow> OperationResult list \<Rightarrow> OperationResult list \<times> CanvasData" where
  "runOperations canvasData [] results = (results, canvasData)"
| "runOperations canvasData (operation # rest) results =
     (let (result, canvasData') = dispatch canvasData operation
      in runOperations canvasData' rest (results @ [result]))"

text \<open>
  The vault is outside the repository's code: \<^verbatim>\<open>readCanvasFile\<close> is given by its
  result (\<^term>\<open>None\<close> for \<^verbatim>\<open>null\<close>) and \<^verbatim>\<open>writeCanvasFile\<close> by the boolean it
  returns for the data handed to it. \<open>writeCalls\<close> lists the documents passed to
  \<^verbatim>\<open>writeCanvasFile\<close>, in call order.
\<close>

record BatchResult =
  results :: "OperationResult list"
  allSuccess :: bool
  writeCalls :: "CanvasData list"

definition executeCanvasOperations ::
  "CanvasData option \<Rightarrow> (CanvasData \<Rightarrow> bool) \<Rightarrow> string \<Rightarrow> CanvasOperation list \<Rightarrow> BatchResult" where
  "executeCanvasOperations readCanvasFile writeCanvasFile canvasPath operations =
     (case readCanvasFile of
        None \<Rightarrow> \<lparr>results = [failed (''Failed to read canvas: '' @ canvasPath)],
                 allSuccess = False, writeCalls = []\<rparr>
      | Some canvasData0 \<Rightarrow>
          (let (rs, canvasData) = runOperations canvasData0 operations [];
               every = list_all success rs
           in if list_ex success rs
              then (if \<not> writeCanvasFile canvasData
                    then \<lparr>results = map (\<lambda>r. if success r
                                               then r\<lparr>success := False, error := Some ''Failed to write canvas file''\<rparr>
                                               else r) rs,
                          allSuccess = False, writeCalls = [canvasData]\<rparr>
                    else \<lparr>results = rs, allSuccess = every, writeCalls = [canvasData]\<rparr>)
              else \<lparr>results = rs, allSuccess = every, writeCalls = []\<rparr>))"

section \<open>Example documents\<close>

definition textNode :: "string \<Rightarrow> int \<Rightarrow> int \<Rightarrow> string \<Rightarrow> CanvasNode" where
  "textNode i x y t =
     \<lparr>n_id = i, n_type = ''text'', n_x = Number x, n_y = Number y,
      n_width = Number 200, n_height = Number 100, n_color = None,
      n_text = Some t, n_file = None, n_url = None, n_label = None\<rparr>"

definition plainEdge :: "string \<Rightarrow> string \<Rightarrow> string \<Rightarrow> CanvasEdgeData" where
  "plainEdge i a b =
     \<lparr>e_id = i, e_fromNode = a, e_toNode = b, e_fromSide = None, e_toSide = None,
      e_label = None, e_color = None\<rparr>"

text \<open>The document of the cascade-deletion scenario: \<open>e1(A\<rightarrow>B)\<close>, \<open>e2(C\<rightarrow>A)\<close>, \<open>e3(B\<rightarrow>C)\<close>.\<close>

definition exDoc :: CanvasData where
  "exDoc =
     \<lparr>nodes = [textNode ''A'' 0 0 ''a'', textNode ''B'' 300 0 ''b'', textNode ''C'' 600 0 ''c''],
      edges = [plainEdge ''e1'' ''A'' ''B'', plainEdge ''e2'' ''C'' ''A'', plainEdge ''e3'' ''B'' ''C'']\<rparr>"

section \<open>Functions used to state the executor's properties\<close>

text \<open>
  The per-operation results and the final document of running a list of operations one
  after the other, each on the document the previous one left.
\<close>

fun outcomes :: "CanvasData \<Rightarrow> CanvasOperation list \<Rightarrow> OperationResult list" where
  "outcomes d [] = []"
| "outcomes d (operation # rest) = fst (dispatch d operation) # outcomes (snd (dispatch d operation)) rest"

fun applyAll :: "CanvasData \<Rightarrow> CanvasOperation list \<Rightarrow> CanvasData" where
  "applyAll d [] = d"
| "applyAll d (operation # rest) = applyAll (snd (dispatch d operation)) rest"

text \<open>The ids an operation result reports as affected.\<close>

definition affected :: "OperationResult \<Rightarrow> string set" where
  "affected r = (case affectedIds r of None \<Rightarrow> {} | Some ids \<Rightarrow> set ids)"

text \<open>Further example inputs.\<close>

definition exUpdates :: NodeUpdates where
  "exUpdates = \<lparr>u_x = Some (Number 5), u_y = None, u_width = None, u_height = None,
     u_content = Some ''new'', u_color = None, u_label = Some ''L''\<rparr>"

definition dupEdgeOp :: AddEdgeOperation where
  "dupEdgeOp = \<lparr>ae_id = ''e1'', ae_fromNode = ''B'', ae_toNode = ''C'', ae_fromSide = None,
     ae_toSide = None, ae_label = None, ae_color = None\<rparr>"

definition emptyDoc :: CanvasData where
  "emptyDoc = \<lparr>nodes = [], edges = []\<rparr>"

definition addN1 :: AddNodeOperation where
  "addN1 = \<lparr>an_id = ''n1'', an_nodeType = ''text'', an_x = Number 0, an_y = Number 0,
     an_width = Number 200, an_height = Number 100, an_content = Some ''hi'', an_file = None,
     an_url = None, an_label = None, an_color = None\<rparr>"

section \<open>Containment edges (CanvasLoader.ts)\<close>












section \<open>The tag stream parser (CanvasOperationStreamer.ts)\<close>

subsection \<open>Character classes, \<^verbatim>\<open>trim\<close> and \<^verbatim>\<open>parseInt\<close>\<close>

text \<open>
  \<^verbatim>\<open>\s\<close>, \<^verbatim>\<open>\w\<close> and the decimal digits, on the code units 0 to 255: the white space
  of JavaScript there is tab, line feed, vertical tab, form feed, carriage return, space
  and the no-break space.
\<close>

definition isSpace :: "char \<Rightarrow> bool" where
  "isSpace c \<longleftrightarrow> c \<in> {CHR 0x09, CHR 0x0A, CHR 0x0B, CHR 0x0C, CHR 0x0D, CHR 0x20, CHR 0xA0}"

definition isDigit :: "char \<Rightarrow> bool" where
  "isDigit c \<longleftrightarrow> c \<in> set ''0123456789''"

definition isWord :: "char \<Rightarrow> bool" where
  "isWord c \<longleftrightarrow>
     c \<in> set ''abcdefghijklmnopqrstuvwxyzABCDEFGHIJKLMNOPQRSTUVWXYZ0123456789_''"

text \<open>\<^verbatim>\<open>String.prototype.trim\<close> strips white space at both ends.\<close>

definition trim :: "string \<Rightarrow> string" where
  "trim s = rev (dropWhile isSpace (rev (dropWhile isSpace s)))"

text \<open>
  \<^verbatim>\<open>parseInt(s, 10)\<close>: leading white space is skipped, one sign is read, then the
  longest run of decimal digits; with no digit the result is \<^verbatim>\<open>NaN\<close>, and whatever
  follows the digits is ignored.
\<close>

definition digitValue :: "char \<Rightarrow> int" where
  "digitValue c = int (of_char c) - 48"

definition parseInt :: "string \<Rightarrow> number" where
  "parseInt s =
     (let t = dropWhile isSpace s;
          (sign, u) = (case t of
                         [] \<Rightarrow> (1, t)
                       | c # cs \<Rightarrow> if c = CHR ''-'' then (- 1, cs)
                                  else if c = CHR ''+'' then (1, cs) else (1, t));
          ds = takeWhile isDigit u
      in if ds = [] then NaN else Number (sign * foldl (\<lambda>a d. 10 * a + digitValue d) 0 ds))"

subsection \<open>Regular expressions as ordered alternatives\<close>

text \<open>
  The regular expressions of the source are matched by backtracking. A piece of a
  pattern is modelled by the list of the ways it can match at the head of a string, each
  way being what it captured and the rest of the string, in the order the matcher tries
  them. Sequencing (\<open>thenR\<close>) tries the continuations of the first way, then those of
  the second, and so on, so the head of the list of a whole pattern is the match the
  matcher reports at that position, and the empty list means no match there.
\<close>

type_synonym 'a alts = "('a \<times> string) list"

text \<open>A literal.\<close>

definition lit :: "string \<Rightarrow> string \<Rightarrow> unit alts" where
  "lit l s = (if prefix l s then [((), drop (length l) s)] else [])"

text \<open>
  \<^verbatim>\<open>[class]*\<close> and \<^verbatim>\<open>[class]+\<close>, greedy: the longest run first, then each shorter
  one.
\<close>

fun greedy :: "(char \<Rightarrow> bool) \<Rightarrow> string \<Rightarrow> string alts" where
  "greedy P [] = [([], [])]"
| "greedy P (c # cs) =
     (if P c then map (\<lambda>(a, r). (c # a, r)) (greedy P cs) else []) @ [([], c # cs)]"

definition greedy1 :: "(char \<Rightarrow> bool) \<Rightarrow> string \<Rightarrow> string alts" where
  "greedy1 P s = filter (\<lambda>(a, r). a \<noteq> []) (greedy P s)"

definition thenR :: "'a alts \<Rightarrow> ('a \<Rightarrow> string \<Rightarrow> 'b alts) \<Rightarrow> 'b alts" where
  "thenR as k = concat (map (\<lambda>(a, r). k a r) as)"

text \<open>A negative lookahead \<^verbatim>\<open>(?!literal)\<close>: it consumes nothing.\<close>

definition notAhead :: "string \<Rightarrow> string \<Rightarrow> unit alts" where
  "notAhead l s = (if prefix l s then [] else [((), s)])"

text \<open>
  \<^verbatim>\<open>(?:group)*\<close>, greedy: one more repetition is tried first, then none. As in the
  language definition, a repetition that consumes nothing is not continued.
\<close>

function star :: "(string \<Rightarrow> string alts) \<Rightarrow> string \<Rightarrow> string alts" where
  "star p s =
     concat (map (\<lambda>(a, r). if length r < length s
                              then map (\<lambda>(b, r'). (a @ b, r')) (star p r) else [])
                 (p s))
     @ [([], s)]"
  by pat_completeness auto
termination
  by (relation "measure (\<lambda>(p, s). length s)") auto

declare star.simps [simp del]

text \<open>
  \<^verbatim>\<open><(?!\/add_node>)[^<]*\<close>, the group repeated inside the content of an
  \<^verbatim>\<open>add_node\<close> element; its value is the text it consumed.
\<close>

definition contentGroup :: "string \<Rightarrow> string alts" where
  "contentGroup s =
     thenR (lit ''<'' s) (\<lambda>_ s1.
     thenR (notAhead ''/add_node>'' s1) (\<lambda>_ s2.
     thenR (greedy (\<lambda>c. c \<noteq> CHR ''<'') s2) (\<lambda>b s3. [(CHR ''<'' # b, s3)])))"

text \<open>
  \<^verbatim>\<open>/<add_node\s+([^>]+)>([^<]*(?:<(?!\/add_node>)[^<]*)*)<\/add_node>/\<close>, with groups 1
  and 2; group 2 is the text consumed by \<^verbatim>\<open>[^<]*\<close> and by the repetitions after it.
\<close>

definition addNodeWithContentAt :: "string \<Rightarrow> (string \<times> string) alts" where
  "addNodeWithContentAt s =
     thenR (lit ''<add_node'' s) (\<lambda>_ s1.
     thenR (greedy1 isSpace s1) (\<lambda>_ s2.
     thenR (greedy1 (\<lambda>c. c \<noteq> CHR ''>'') s2) (\<lambda>g1 s3.
     thenR (lit ''>'' s3) (\<lambda>_ s4.
     thenR (greedy (\<lambda>c. c \<noteq> CHR ''<'') s4) (\<lambda>a s5.
     thenR (star contentGroup s5) (\<lambda>b s6.
     thenR (lit ''</add_node>'' s6) (\<lambda>_ s7. [((g1, a @ b), s7)])))))))"

text \<open>
  \<^verbatim>\<open>/<NAME\s+([^/]+)\/>/\<close>, the pattern of the five self-closing tags; there is no
  second group.
\<close>

definition selfClosingAt :: "string \<Rightarrow> string \<Rightarrow> (string \<times> string) alts" where
  "selfClosingAt name s =
     thenR (lit (CHR ''<'' # name) s) (\<lambda>_ s1.
     thenR (greedy1 isSpace s1) (\<lambda>_ s2.
     thenR (greedy1 (\<lambda>c. c \<noteq> CHR ''/'') s2) (\<lambda>g1 s3.
     thenR (lit ''/>'' s3) (\<lambda>_ s4. [((g1, []), s4)]))))"

text \<open>\<^verbatim>\<open>/(\w+)="([^"]*)"/\<close>, the attribute pattern of \<^verbatim>\<open>parseAttributes\<close>.\<close>

definition attributeAt :: "string \<Rightarrow> (string \<times> string) alts" where
  \<open>attributeAt s =
     thenR (greedy1 isWord s) (\<lambda>k s1.
     thenR (lit ''="'' s1) (\<lambda>_ s2.
     thenR (greedy (\<lambda>c. c \<noteq> CHR ''"'') s2) (\<lambda>v s3.
     thenR (lit ''"'' s3) (\<lambda>_ s4. [((k, v), s4)]))))\<close>

text \<open>
  \<^verbatim>\<open>RegExp.prototype.exec\<close> for a global pattern: the leftmost position at or after
  \<^verbatim>\<open>lastIndex\<close> where the pattern matches. The result is \<^verbatim>\<open>match[0]\<close>, the groups
  and the new \<^verbatim>\<open>lastIndex\<close> (the end of the match); \<^term>\<open>None\<close> is \<^verbatim>\<open>null\<close>.
\<close>

fun searchFrom :: "(string \<Rightarrow> 'a alts) \<Rightarrow> string \<Rightarrow> nat \<Rightarrow> (nat \<times> 'a \<times> string) option" where
  "searchFrom p [] i = (case p [] of [] \<Rightarrow> None | (g, r) # _ \<Rightarrow> Some (i, g, r))"
| "searchFrom p (c # cs) i =
     (case p (c # cs) of [] \<Rightarrow> searchFrom p cs (Suc i) | (g, r) # _ \<Rightarrow> Some (i, g, r))"

definition exec :: "(string \<Rightarrow> 'a alts) \<Rightarrow> string \<Rightarrow> nat \<Rightarrow> (string \<times> 'a \<times> nat) option" where
  "exec p str lastIndex =
     (if length str < lastIndex then None
      else (case searchFrom p (drop lastIndex str) lastIndex of
              None \<Rightarrow> None
            | Some (i, g, r) \<Rightarrow>
                (let m0 = take (length str - i - length r) (drop i str)
                 in Some (m0, g, i + length m0))))"

text \<open>\<^verbatim>\<open>buffer.replace(m, "")\<close> with a string \<open>m\<close>: the first occurrence of \<open>m\<close> is removed.\<close>

fun replaceFirst :: "string \<Rightarrow> string \<Rightarrow> string" where
  "replaceFirst m [] = []"
| "replaceFirst m (c # cs) =
     (if prefix m (c # cs) then drop (length m) (c # cs) else c # replaceFirst m cs)"

subsection \<open>The six tag shapes\<close>

text \<open>The six patterns of \<^verbatim>\<open>extractCompletedOperations\<close>, under the names of the source.\<close>

datatype Pattern =
    addNodeWithContentPattern
  | addNodeSelfClosingPattern
  | updateNodePattern
  | deleteNodePattern
  | addEdgePattern
  | deleteEdgePattern

fun alternatives :: "Pattern \<Rightarrow> string \<Rightarrow> (string \<times> string) alts" where
  "alternatives addNodeWithContentPattern = addNodeWithContentAt"
| "alternatives addNodeSelfClosingPattern = selfClosingAt ''add_node''"
| "alternatives updateNodePattern = selfClosingAt ''update_node''"
| "alternatives deleteNodePattern = selfClosingAt ''delete_node''"
| "alternatives addEdgePattern = selfClosingAt ''add_edge''"
| "alternatives deleteEdgePattern = selfClosingAt ''delete_edge''"

subsection \<open>Every match consumes input\<close>

text \<open>
  Each way of matching splits the string into what was consumed and the rest, and the
  patterns above consume at least one character. This is what makes the two
  \<^verbatim>\<open>while ((match = pattern.exec(...)) !== null)\<close> loops of the source terminate.
\<close>

lemma greedy_split: "(a, r) \<in> set (greedy P s) \<Longrightarrow> s = a @ r"
  by (induction s arbitrary: a) (auto split: if_splits)


lemma lit_split: "(u, r) \<in> set (lit l s) \<Longrightarrow> s = l @ r"
  by (auto simp: lit_def prefix_def split: if_splits)

lemma greedy1_split: "(a, r) \<in> set (greedy1 P s) \<Longrightarrow> s = a @ r \<and> a \<noteq> []"
  by (auto simp: greedy1_def dest: greedy_split)

lemma thenR_iff: "(b, r') \<in> set (thenR as k) \<longleftrightarrow> (\<exists>a r. (a, r) \<in> set as \<and> (b, r') \<in> set (k a r))"
  by (auto simp: thenR_def)

definition consuming :: "(string \<Rightarrow> 'a alts) \<Rightarrow> bool" where
  "consuming p \<longleftrightarrow> (\<forall>s g r. (g, r) \<in> set (p s) \<longrightarrow> (\<exists>m. m \<noteq> [] \<and> s = m @ r))"

lemma contentGroup_split: "(a, r) \<in> set (contentGroup s) \<Longrightarrow> s = a @ r"
  by (auto simp: contentGroup_def notAhead_def thenR_iff dest!: lit_split greedy_split
           split: if_splits)

lemma star_split:
  "(\<And>s a r. (a, r) \<in> set (p s) \<Longrightarrow> s = a @ r) \<Longrightarrow> (a, r) \<in> set (star p s) \<Longrightarrow> s = a @ r"
proof (induction p s arbitrary: a r rule: star.induct)
  case (1 p s)
  from "1.prems"(2) have "(a, r) = ([], s) \<or>
      (\<exists>a1 r1 b. (a1, r1) \<in> set (p s) \<and> length r1 < length s \<and>
         (b, r) \<in> set (star p r1) \<and> a = a1 @ b)"
    by (subst (asm) star.simps) (auto split: if_splits)
  then show ?case
  proof
    assume "(a, r) = ([], s)"
    then show ?thesis by simp
  next
    assume "\<exists>a1 r1 b. (a1, r1) \<in> set (p s) \<and> length r1 < length s \<and>
         (b, r) \<in> set (star p r1) \<and> a = a1 @ b"
    then obtain a1 r1 b where h: "(a1, r1) \<in> set (p s)" "length r1 < length s"
      "(b, r) \<in> set (star p r1)" "a = a1 @ b" by blast
    have "r1 = b @ r"
      by (rule "1.IH" [OF h(1) refl h(2) _ h(3)]) (rule "1.prems"(1))
    with "1.prems"(1) [OF h(1)] h(4) show ?thesis by simp
  qed
qed

lemma selfClosingAt_consumes:
  "(g, r) \<in> set (selfClosingAt name s) \<Longrightarrow> \<exists>m. m \<noteq> [] \<and> s = m @ r"
  by (auto simp: selfClosingAt_def thenR_iff dest!: lit_split greedy1_split)

lemma addNodeWithContentAt_consumes:
  assumes "(g, r) \<in> set (addNodeWithContentAt s)"
  shows "\<exists>m. m \<noteq> [] \<and> s = m @ r"
proof -
  from assms obtain s1 w s2 g1 s3 s4 a s5 b s6 where
    1: "s = ''<add_node'' @ s1" and 2: "s1 = w @ s2" and 3: "s2 = g1 @ s3" and 4: "s3 = ''>'' @ s4"
    and 5: "s4 = a @ s5" and 6: "(b, s6) \<in> set (star contentGroup s5)"
    and 7: "s6 = ''</add_node>'' @ r"
    unfolding addNodeWithContentAt_def thenR_iff
    by (auto dest!: lit_split greedy1_split greedy_split)
  from star_split [OF contentGroup_split 6] have "s5 = b @ s6" .
  with 1 2 3 4 5 7 have "s = (''<add_node'' @ w @ g1 @ ''>'' @ a @ b @ ''</add_node>'') @ r"
    by simp
  then show ?thesis by blast
qed

lemma alternatives_consuming: "consuming (alternatives pat)"
  unfolding consuming_def
  by (cases pat) (auto dest: selfClosingAt_consumes addNodeWithContentAt_consumes)

lemma attributeAt_consuming: "consuming attributeAt"
  unfolding consuming_def
  by (auto simp: attributeAt_def thenR_iff dest!: lit_split greedy1_split greedy_split)

lemma searchFrom_Some:
  "searchFrom p s i = Some (j, g, r) \<Longrightarrow>
     \<exists>k\<le>length s. j = i + k \<and> (g, r) \<in> set (p (drop k s))"
proof (induction s arbitrary: i)
  case Nil
  then show ?case by (auto split: list.splits)
next
  case (Cons c cs)
  show ?case
  proof (cases "p (c # cs)")
    case Nil
    with Cons.prems have "searchFrom p cs (Suc i) = Some (j, g, r)" by simp
    from Cons.IH [OF this] obtain k where "k \<le> length cs" "j = Suc i + k"
      "(g, r) \<in> set (p (drop k cs))" by blast
    then show ?thesis by (intro exI [of _ "Suc k"]) simp
  next
    case (Cons a as)
    with Cons.prems have "a = (g, r)" "j = i" by (auto split: prod.splits)
    with Cons show ?thesis by (intro exI [of _ 0]) simp
  qed
qed

lemma exec_Some:
  assumes cons: "consuming p"
    and ex: "exec p str lastIndex = Some (m0, g, lastIndex')"
  shows "m0 \<noteq> [] \<and> lastIndex < lastIndex' \<and> lastIndex' \<le> length str \<and>
         (\<exists>pre post. str = pre @ m0 @ post \<and> lastIndex' = length pre + length m0 \<and>
            lastIndex \<le> length pre \<and> (g, post) \<in> set (p (m0 @ post)))"
proof -
  from ex have le: "lastIndex \<le> length str" by (auto simp: exec_def split: if_splits)
  from ex le obtain i r where s: "searchFrom p (drop lastIndex str) lastIndex = Some (i, g, r)"
    and m0: "m0 = take (length str - i - length r) (drop i str)"
    and li: "lastIndex' = i + length m0"
    by (auto simp: exec_def Let_def split: option.splits)
  from searchFrom_Some [OF s] obtain k where k: "k \<le> length (drop lastIndex str)"
    "i = lastIndex + k" "(g, r) \<in> set (p (drop k (drop lastIndex str)))" by blast
  from cons k(3) obtain m where m: "m \<noteq> []" "drop k (drop lastIndex str) = m @ r"
    unfolding consuming_def by blast
  have di: "drop i str = m @ r" using m(2) k(2) by (simp add: add.commute)
  have ile: "i \<le> length str" using k(1,2) le by simp
  have len: "length str - i = length m + length r"
    using di by (metis length_append length_drop)
  have mm: "m0 = m" unfolding m0 using di len by simp
  have str: "str = take i str @ m0 @ r" using di mm by (metis append_take_drop_id)
  have lt: "length (take i str) = i" using ile by simp
  have mem: "(g, r) \<in> set (p (m0 @ r))" using k(3) di mm k(2) by (simp add: add.commute)
  have "\<exists>pre post. str = pre @ m0 @ post \<and> lastIndex' = length pre + length m0 \<and>
            lastIndex \<le> length pre \<and> (g, post) \<in> set (p (m0 @ post))"
    apply (rule exI [of _ "take i str"])
    apply (rule exI [of _ r])
    using str lt li k(2) mem by simp
  moreover have "lastIndex' \<le> length str" using li len mm ile by simp
  moreover have "lastIndex < lastIndex'" using li k(2) mm m(1) by simp
  ultimately show ?thesis using m(1) mm by simp
qed

lemma replaceFirst_length:
  "m \<noteq> [] \<Longrightarrow> str = pre @ m @ post \<Longrightarrow> length (replaceFirst m str) < length str"
proof (induction pre arbitrary: str)
  case Nil
  then show ?case by (cases m) auto
next
  case (Cons c pre)
  then show ?case by (cases m) (auto simp: prefix_def)
qed

subsection \<open>\<^verbatim>\<open>parseAttributes\<close>\<close>

text \<open>
  The loop of \<^verbatim>\<open>parseAttributes\<close>: every \<^verbatim>\<open>key="value"\<close> found from \<^verbatim>\<open>lastIndex\<close> on
  is stored, a later value replacing an earlier one for the same key.
\<close>

function attributesFrom :: "string \<Rightarrow> nat \<Rightarrow> (string \<rightharpoonup> string) \<Rightarrow> (string \<rightharpoonup> string)" where
  "attributesFrom tagContent lastIndex attrs =
     (case exec attributeAt tagContent lastIndex of
        None \<Rightarrow> attrs
      | Some (m0, (k, v), lastIndex') \<Rightarrow> attributesFrom tagContent lastIndex' (attrs(k \<mapsto> v)))"
  by pat_completeness auto
termination
proof (relation "measure (\<lambda>(tagContent, lastIndex, attrs). Suc (length tagContent) - lastIndex)", goal_cases)
  case 1
  show ?case by simp
next
  case (2 tagContent lastIndex attrs x2 m0 y kv lastIndex' k v)
  then have "exec attributeAt tagContent lastIndex = Some (m0, (k, v), lastIndex')" by simp
  from exec_Some [OF attributeAt_consuming this] show ?case by auto
qed

declare attributesFrom.simps [simp del]

definition parseAttributes :: "string \<Rightarrow> (string \<rightharpoonup> string)" where
  "parseAttributes tagContent = attributesFrom tagContent 0 Map.empty"

subsection \<open>Building the operations\<close>

text \<open>
  The object literals pushed by \<^verbatim>\<open>extractCompletedOperations\<close>. \<^verbatim>\<open>attrs.x || "0"\<close> is
  \<^term>\<open>orString (attrs ''x'') ''0''\<close>, \<^verbatim>\<open>attrs.color || undefined\<close> is
  \<^term>\<open>orUndefined (attrs ''color'')\<close>.
\<close>

definition addNodeOperation :: "(string \<rightharpoonup> string) \<Rightarrow> string option \<Rightarrow> CanvasOperation" where
  "addNodeOperation attrs content =
     AddNode \<lparr>an_id = the (attrs ''id''), an_nodeType = the (attrs ''type''),
       an_x = parseInt (orString (attrs ''x'') ''0''),
       an_y = parseInt (orString (attrs ''y'') ''0''),
       an_width = parseInt (orString (attrs ''width'') ''200''),
       an_height = parseInt (orString (attrs ''height'') ''100''),
       an_content = content,
       an_file = orUndefined (attrs ''file''),
       an_url = orUndefined (attrs ''url''),
       an_label = orUndefined (attrs ''label''),
       an_color = orUndefined (attrs ''color'')\<rparr>"

definition updateNodeOperation :: "(string \<rightharpoonup> string) \<Rightarrow> CanvasOperation" where
  "updateNodeOperation attrs =
     UpdateNode \<lparr>un_id = the (attrs ''id''),
       updates = \<lparr>u_x = map_option parseInt (attrs ''x''),
                  u_y = map_option parseInt (attrs ''y''),
                  u_width = map_option parseInt (attrs ''width''),
                  u_height = map_option parseInt (attrs ''height''),
                  u_content = attrs ''content'',
                  u_color = attrs ''color'',
                  u_label = attrs ''label''\<rparr>\<rparr>"

definition addEdgeOperation :: "(string \<rightharpoonup> string) \<Rightarrow> string \<Rightarrow> CanvasOperation" where
  "addEdgeOperation attrs generatedId =
     AddEdge \<lparr>ae_id = orString (attrs ''id'') generatedId,
       ae_fromNode = the (attrs ''from''), ae_toNode = the (attrs ''to''),
       ae_fromSide = orUndefined (attrs ''fromSide''),
       ae_toSide = orUndefined (attrs ''toSide''),
       ae_label = orUndefined (attrs ''label''),
       ae_color = orUndefined (attrs ''color'')\<rparr>"

text \<open>
  The body of each loop up to the \<^verbatim>\<open>push\<close>: the attributes are parsed from group 1 and
  the operation is built if the required attributes are truthy; \<^term>\<open>None\<close> stands for
  a match that is skipped. An \<^verbatim>\<open>add_edge\<close> without id gets the id
  \<^verbatim>\<open>edge_${Date.now()}_${Math.random()...}\<close>, which is outside the model: \<open>generateId k\<close>
  is the \<open>k\<close>-th id generated, and the count of generated ids is threaded through.
\<close>

fun operationOf :: "Pattern \<Rightarrow> (nat \<Rightarrow> string) \<Rightarrow> nat \<Rightarrow> string \<times> string \<Rightarrow> (CanvasOperation \<times> nat) option" where
  "operationOf addNodeWithContentPattern generateId generated (g1, g2) =
     (let attrs = parseAttributes g1; innerContent = trim g2
      in if \<not> falsy (attrs ''id'') \<and> \<not> falsy (attrs ''type'')
         then Some (addNodeOperation attrs (orUndefined (Some innerContent)), generated)
         else None)"
| "operationOf addNodeSelfClosingPattern generateId generated (g1, g2) =
     (let attrs = parseAttributes g1
      in if \<not> falsy (attrs ''id'') \<and> \<not> falsy (attrs ''type'')
         then Some (addNodeOperation attrs None, generated)
         else None)"
| "operationOf updateNodePattern generateId generated (g1, g2) =
     (let attrs = parseAttributes g1
      in if \<not> falsy (attrs ''id'') then Some (updateNodeOperation attrs, generated) else None)"
| "operationOf deleteNodePattern generateId generated (g1, g2) =
     (let attrs = parseAttributes g1
      in if \<not> falsy (attrs ''id'') then Some (DeleteNode (the (attrs ''id'')), generated) else None)"
| "operationOf addEdgePattern generateId generated (g1, g2) =
     (let attrs = parseAttributes g1
      in if \<not> falsy (attrs ''from'') \<and> \<not> falsy (attrs ''to'')
         then Some (addEdgeOperation attrs (generateId generated),
                    if falsy (attrs ''id'') then Suc generated else generated)
         else None)"
| "operationOf deleteEdgePattern generateId generated (g1, g2) =
     (let attrs = parseAttributes g1
      in if \<not> falsy (attrs ''id'') then Some (DeleteEdge (the (attrs ''id'')), generated) else None)"

subsection \<open>The scanning loops and \<^verbatim>\<open>processChunk\<close>\<close>

text \<open>
  One \<^verbatim>\<open>while\<close> loop of \<^verbatim>\<open>extractCompletedOperations\<close>. On a match whose
  operation is built, the operation is pushed, \<^verbatim>\<open>match[0]\<close> is removed from the buffer
  and \<^verbatim>\<open>lastIndex\<close> is reset to 0; on a match that is skipped, the search goes on from
  the end of that match; the loop ends when \<^verbatim>\<open>exec\<close> finds nothing.
\<close>

function scan :: "Pattern \<Rightarrow> (nat \<Rightarrow> string) \<Rightarrow> string \<Rightarrow> nat \<Rightarrow> CanvasOperation list \<Rightarrow> nat \<Rightarrow>
    CanvasOperation list \<times> string \<times> nat" where
  "scan pat generateId buffer lastIndex operations generated =
     (case exec (alternatives pat) buffer lastIndex of
        None \<Rightarrow> (operations, buffer, generated)
      | Some (m0, groups, lastIndex') \<Rightarrow>
          (case operationOf pat generateId generated groups of
             Some (operation, generated') \<Rightarrow>
               scan pat generateId (replaceFirst m0 buffer) 0 (operations @ [operation]) generated'
           | None \<Rightarrow> scan pat generateId buffer lastIndex' operations generated))"
  by pat_completeness auto
termination
proof (relation "measures [\<lambda>(pat, generateId, buffer, lastIndex, operations, generated). length buffer,
    \<lambda>(pat, generateId, buffer, lastIndex, operations, generated). Suc (length buffer) - lastIndex]",
    goal_cases)
  case 1
  show ?case by simp
next
  case (2 pat generateId buffer lastIndex operations generated x2 m0 y groups lastIndex')
  then have "exec (alternatives pat) buffer lastIndex = Some (m0, groups, lastIndex')" by simp
  from exec_Some [OF alternatives_consuming this] show ?case by auto
next
  case (3 pat generateId buffer lastIndex operations generated x2 m0 y groups lastIndex' x2a operation generated')
  then have "exec (alternatives pat) buffer lastIndex = Some (m0, groups, lastIndex')" by simp
  from exec_Some [OF alternatives_consuming this] obtain pre post where
    "m0 \<noteq> []" "buffer = pre @ m0 @ post" by blast
  from replaceFirst_length [OF this] show ?case by simp
qed

declare scan.simps [simp del]

text \<open>
  The fields of the class, and the count of edge ids generated so far.
\<close>

record Streamer =
  buffer :: string
  currentCanvasPath :: "string option"
  summary :: string
  generated :: nat

definition newStreamer :: Streamer where
  "newStreamer = \<lparr>buffer = [], currentCanvasPath = None, summary = [], generated = 0\<rparr>"

text \<open>The six loops in source order, sharing \<^verbatim>\<open>operations\<close> and the buffer.\<close>

definition extractCompletedOperations :: "(nat \<Rightarrow> string) \<Rightarrow> Streamer \<Rightarrow> CanvasOperation list \<times> Streamer" where
  "extractCompletedOperations generateId this =
     (let (ops1, buf1, gen1) = scan addNodeWithContentPattern generateId (buffer this) 0 [] (generated this);
          (ops2, buf2, gen2) = scan addNodeSelfClosingPattern generateId buf1 0 ops1 gen1;
          (ops3, buf3, gen3) = scan updateNodePattern generateId buf2 0 ops2 gen2;
          (ops4, buf4, gen4) = scan deleteNodePattern generateId buf3 0 ops3 gen3;
          (ops5, buf5, gen5) = scan addEdgePattern generateId buf4 0 ops4 gen4;
          (ops6, buf6, gen6) = scan deleteEdgePattern generateId buf5 0 ops5 gen5
      in (ops6, this\<lparr>buffer := buf6, generated := gen6\<rparr>))"

text \<open>
  \<^verbatim>\<open>/<canvas_edit\s+path="([^"]+)"(?:\s+summary="([^"]*)")?/\<close>: the optional group is
  tried first, then the match without it (group 2 \<^verbatim>\<open>undefined\<close>).
\<close>

definition canvasEditAt :: "string \<Rightarrow> (string \<times> string option) alts" where
  \<open>canvasEditAt s =
     thenR (lit ''<canvas_edit'' s) (\<lambda>_ s1.
     thenR (greedy1 isSpace s1) (\<lambda>_ s2.
     thenR (lit ''path="'' s2) (\<lambda>_ s3.
     thenR (greedy1 (\<lambda>c. c \<noteq> CHR ''"'') s3) (\<lambda>g1 s4.
     thenR (lit ''"'' s4) (\<lambda>_ s5.
       thenR (greedy1 isSpace s5) (\<lambda>_ s6.
       thenR (lit ''summary="'' s6) (\<lambda>_ s7.
       thenR (greedy (\<lambda>c. c \<noteq> CHR ''"'') s7) (\<lambda>g2 s8.
       thenR (lit ''"'' s8) (\<lambda>_ s9. [((g1, Some g2), s9)]))))
       @ [((g1, None), s5)])))))\<close>

text \<open>The capture of path and summary in \<^verbatim>\<open>processChunk\<close> (first capture wins).\<close>

definition captureCanvasEdit :: "Streamer \<Rightarrow> Streamer" where
  "captureCanvasEdit this =
     (if falsy (currentCanvasPath this) \<or> summary this = []
      then (case exec canvasEditAt (buffer this) 0 of
              None \<Rightarrow> this
            | Some (m0, (g1, g2), lastIndex') \<Rightarrow>
                (let this1 = (if falsy (currentCanvasPath this)
                              then this\<lparr>currentCanvasPath := Some g1\<rparr> else this)
                 in if summary this1 = [] \<and> \<not> falsy g2
                    then this1\<lparr>summary := the g2\<rparr> else this1))
      else this)"

text \<open>
  \<^verbatim>\<open>processChunk\<close>: the chunk is appended, path and summary are captured, and the
  completed operations are returned; the generator's yields are the returned list.
\<close>

definition processChunk :: "(nat \<Rightarrow> string) \<Rightarrow> Streamer \<Rightarrow> string \<Rightarrow> CanvasOperation list \<times> Streamer" where
  "processChunk generateId this chunk =
     extractCompletedOperations generateId
       (captureCanvasEdit (this\<lparr>buffer := buffer this @ chunk\<rparr>))"

text \<open>Successive \<^verbatim>\<open>processChunk\<close> calls, one per fragment, with all operations yielded.\<close>

fun processChunks :: "(nat \<Rightarrow> string) \<Rightarrow> Streamer \<Rightarrow> string list \<Rightarrow> CanvasOperation list \<times> Streamer" where
  "processChunks generateId this [] = ([], this)"
| "processChunks generateId this (chunk # chunks) =
     (let (ops, this') = processChunk generateId this chunk;
          (more, this'') = processChunks generateId this' chunks
      in (ops @ more, this''))"

section \<open>Functions used to state the parser's properties\<close>




text \<open>A generator of edge ids for the examples.\<close>

definition exampleIds :: "nat \<Rightarrow> string" where
  "exampleIds k = ''edge_'' @ replicate (Suc k) (CHR ''i'')"





text \<open>A group node followed by a text node, as two fragments; and operations for the examples.\<close>

definition groupThenText :: "string list" where
  \<open>groupThenText = [''<add_node id="g" type="group"/>'', ''<add_node id="t" type="text">Hi</add_node>'']\<close>


definition plainOp :: "string \<Rightarrow> string \<Rightarrow> string option \<Rightarrow> AddNodeOperation" where
  "plainOp i ty c =
     \<lparr>an_id = i, an_nodeType = ty, an_x = Number 0, an_y = Number 0,
      an_width = Number 200, an_height = Number 100,
      an_content = c, an_file = None, an_url = None, an_label = None, an_color = None\<rparr>"

section \<open>Verified properties\<close>

subsection \<open>Array helpers\<close>

lemma findIndex_ge: "- 1 \<le> findIndex P xs"
  by (induction xs) (auto simp: Let_def)

lemma findIndex_none: "findIndex P xs = - 1 \<longleftrightarrow> (\<forall>x\<in>set xs. \<not> P x)"
proof (induction xs)
  case Nil
  then show ?case by simp
next
  case (Cons x xs)
  have "- 1 \<le> findIndex P xs" by (rule findIndex_ge)
  with Cons show ?case by (auto simp: Let_def)
qed

lemma findIndex_found:
  "findIndex P xs \<noteq> - 1 \<Longrightarrow>
     0 \<le> findIndex P xs \<and> nat (findIndex P xs) < length xs \<and> P (xs ! nat (findIndex P xs)) \<and>
     (\<forall>j < nat (findIndex P xs). \<not> P (xs ! j))"
proof (induction xs)
  case Nil
  then show ?case by simp
next
  case (Cons x xs)
  show ?case
  proof (cases "P x")
    case True
    then show ?thesis by simp
  next
    case False
    with Cons.prems have ne: "findIndex P xs \<noteq> - 1" by (auto simp: Let_def split: if_splits)
    from Cons.IH [OF ne] have ih: "0 \<le> findIndex P xs" "nat (findIndex P xs) < length xs"
      "P (xs ! nat (findIndex P xs))" "\<forall>j < nat (findIndex P xs). \<not> P (xs ! j)" by auto
    have eq: "findIndex P (x # xs) = findIndex P xs + 1" using False ne by (simp add: Let_def)
    have n: "nat (findIndex P xs + 1) = Suc (nat (findIndex P xs))" using ih(1) by simp
    show ?thesis unfolding eq n using ih False
      by (auto simp: nth_Cons split: nat.splits)
  qed
qed

lemma dropConnected_eq:
  "dropConnected i es acc =
     (filter (\<lambda>e. \<not> (e_fromNode e = i \<or> e_toNode e = i)) es,
      acc @ map e_id (filter (\<lambda>e. e_fromNode e = i \<or> e_toNode e = i) es))"
  by (induction es arbitrary: acc) auto

subsection \<open>Duplicate node ids are rejected\<close>

text \<open>
  C7. On a document that already has a node with the operation's id,
  \<^verbatim>\<open>executeAddNode\<close> returns the failure "Node with ID ... already exists" and the
  document it was given, unchanged: no node added, no node or edge modified.
\<close>

theorem addNode_duplicate:
  \<open>\<exists>n\<in>set (nodes canvasData). n_id n = an_id op \<Longrightarrow>
     executeAddNode canvasData op =
       (failed (''Node with ID "'' @ an_id op @ ''" already exists''), canvasData)\<close>
  by (simp add: executeAddNode_def list_ex_iff)

theorem addNode_duplicate_witness:
  \<open>(\<exists>n\<in>set (nodes exDoc). n_id n = ''A'') \<and>
   (\<forall>ty x y w h c.
      executeAddNode exDoc
        \<lparr>an_id = ''A'', an_nodeType = ty, an_x = x, an_y = y, an_width = w, an_height = h,
         an_content = c, an_file = None, an_url = None, an_label = None, an_color = None\<rparr> =
      (failed ''Node with ID "A" already exists'', exDoc))\<close>
proof -
  have h: "\<exists>n\<in>set (nodes exDoc). n_id n = ''A''"
    by (simp add: exDoc_def textNode_def)
  show ?thesis
  proof (intro conjI allI)
    show "\<exists>n\<in>set (nodes exDoc). n_id n = ''A''" by (rule h)
  next
    fix ty x y w h' c
    let ?op = "\<lparr>an_id = ''A'', an_nodeType = ty, an_x = x, an_y = y, an_width = w, an_height = h',
         an_content = c, an_file = None, an_url = None, an_label = None, an_color = None\<rparr>"
    have "\<exists>n\<in>set (nodes exDoc). n_id n = an_id ?op" using h by simp
    from addNode_duplicate [OF this]
    show \<open>executeAddNode exDoc ?op = (failed ''Node with ID "A" already exists'', exDoc)\<close>
      by simp
  qed
qed

subsection \<open>Cascade deletion\<close>

text \<open>
  C3. If the document has a node with id \<open>a\<close>, \<^verbatim>\<open>executeDeleteNode\<close> succeeds; it
  removes the (first) node with that id, at index \<open>k\<close>, and exactly the edges whose
  \<open>fromNode\<close> or \<open>toNode\<close> is \<open>a\<close>; the other nodes and edges stay as they are, in
  order; \<open>affectedIds\<close> is \<open>a\<close> followed by the ids of the removed edges. When node
  ids are unique, no node with id \<open>a\<close> is left. If the document has no such node, the
  call fails with "Node with ID ... not found" and changes nothing.
\<close>

theorem deleteNode_cascade:
  \<open>(if \<exists>n\<in>set (nodes canvasData). n_id n = a
     then \<exists>k<length (nodes canvasData).
            n_id (nodes canvasData ! k) = a \<and> (\<forall>j<k. n_id (nodes canvasData ! j) \<noteq> a) \<and>
            executeDeleteNode canvasData a =
              (succeeded (a # map e_id (filter (\<lambda>e. e_fromNode e = a \<or> e_toNode e = a) (edges canvasData))),
               \<lparr>nodes = take k (nodes canvasData) @ drop (Suc k) (nodes canvasData),
                edges = filter (\<lambda>e. e_fromNode e \<noteq> a \<and> e_toNode e \<noteq> a) (edges canvasData)\<rparr>) \<and>
            (distinct (map n_id (nodes canvasData)) \<longrightarrow>
               set (take k (nodes canvasData) @ drop (Suc k) (nodes canvasData)) =
                 {n \<in> set (nodes canvasData). n_id n \<noteq> a})
     else executeDeleteNode canvasData a =
            (failed (''Node with ID "'' @ a @ ''" not found''), canvasData))\<close>
proof (cases "\<exists>n\<in>set (nodes canvasData). n_id n = a")
  case False
  then have "findIndex (\<lambda>n. n_id n = a) (nodes canvasData) = - 1"
    by (simp add: findIndex_none)
  with False show ?thesis by (simp add: executeDeleteNode_def)
next
  case True
  let ?ns = "nodes canvasData"
  let ?i = "findIndex (\<lambda>n. n_id n = a) ?ns"
  from True have ne: "?i \<noteq> - 1" by (simp add: findIndex_none)
  from findIndex_found [OF ne]
  have k: "nat ?i < length ?ns" "n_id (?ns ! nat ?i) = a" "\<forall>j<nat ?i. n_id (?ns ! j) \<noteq> a"
    by auto
  have ex: "executeDeleteNode canvasData a =
      (succeeded (a # map e_id (filter (\<lambda>e. e_fromNode e = a \<or> e_toNode e = a) (edges canvasData))),
       \<lparr>nodes = take (nat ?i) ?ns @ drop (Suc (nat ?i)) ?ns,
        edges = filter (\<lambda>e. e_fromNode e \<noteq> a \<and> e_toNode e \<noteq> a) (edges canvasData)\<rparr>)"
    using ne by (simp add: executeDeleteNode_def Let_def dropConnected_eq splice1_def)
  have dist: "set (take (nat ?i) ?ns @ drop (Suc (nat ?i)) ?ns) = {n \<in> set ?ns. n_id n \<noteq> a}"
    if d: "distinct (map n_id ?ns)"
  proof -
    have split: "?ns = take (nat ?i) ?ns @ (?ns ! nat ?i) # drop (Suc (nat ?i)) ?ns"
      using k(1) by (simp add: id_take_nth_drop)
    have "distinct (map n_id (take (nat ?i) ?ns @ (?ns ! nat ?i) # drop (Suc (nat ?i)) ?ns))"
      using d split by simp
    then have notin: "a \<notin> n_id ` set (take (nat ?i) ?ns)" "a \<notin> n_id ` set (drop (Suc (nat ?i)) ?ns)"
      using k(2) by auto
    have "set ?ns = set (take (nat ?i) ?ns) \<union> {?ns ! nat ?i} \<union> set (drop (Suc (nat ?i)) ?ns)"
      by (subst split) auto
    with notin k(2) show ?thesis by auto
  qed
  have "\<exists>k<length ?ns. n_id (?ns ! k) = a \<and> (\<forall>j<k. n_id (?ns ! j) \<noteq> a) \<and>
            executeDeleteNode canvasData a =
              (succeeded (a # map e_id (filter (\<lambda>e. e_fromNode e = a \<or> e_toNode e = a) (edges canvasData))),
               \<lparr>nodes = take k ?ns @ drop (Suc k) ?ns,
                edges = filter (\<lambda>e. e_fromNode e \<noteq> a \<and> e_toNode e \<noteq> a) (edges canvasData)\<rparr>) \<and>
            (distinct (map n_id ?ns) \<longrightarrow>
               set (take k ?ns @ drop (Suc k) ?ns) = {n \<in> set ?ns. n_id n \<noteq> a})"
    using k ex dist by (intro exI [of _ "nat ?i"] conjI impI) assumption+
  with True show ?thesis by (simp only: if_True)
qed

text \<open>
  The scenario of the specification: deleting \<open>A\<close> reports \<open>A, e1, e2\<close>, leaves the
  nodes \<open>B\<close>, \<open>C\<close> and the edge \<open>e3\<close>; deleting an absent node fails.
\<close>

theorem deleteNode_cascade_witness:
  \<open>(\<exists>n\<in>set (nodes exDoc). n_id n = ''A'') \<and>
   fst (executeDeleteNode exDoc ''A'') = succeeded [''A'', ''e1'', ''e2''] \<and>
   nodes (snd (executeDeleteNode exDoc ''A'')) = [nodes exDoc ! 1, nodes exDoc ! 2] \<and>
   edges (snd (executeDeleteNode exDoc ''A'')) = [plainEdge ''e3'' ''B'' ''C''] \<and>
   distinct (map n_id (nodes exDoc)) \<and>
   ''A'' \<notin> n_id ` set (nodes (snd (executeDeleteNode exDoc ''A''))) \<and>
   executeDeleteNode exDoc ''Z'' = (failed ''Node with ID "Z" not found'', exDoc)\<close>
proof -
  have h: "\<exists>n\<in>set (nodes exDoc). n_id n = ''A''" by (simp add: exDoc_def textNode_def)
  have h': "\<not> (\<exists>n\<in>set (nodes exDoc). n_id n = ''Z'')" by (simp add: exDoc_def textNode_def)
  from deleteNode_cascade [of exDoc "''A''"] h
  obtain k where k: "k < length (nodes exDoc)" "n_id (nodes exDoc ! k) = ''A''"
    and ex: "executeDeleteNode exDoc ''A'' =
      (succeeded (''A'' # map e_id (filter (\<lambda>e. e_fromNode e = ''A'' \<or> e_toNode e = ''A'') (edges exDoc))),
       \<lparr>nodes = take k (nodes exDoc) @ drop (Suc k) (nodes exDoc),
        edges = filter (\<lambda>e. e_fromNode e \<noteq> ''A'' \<and> e_toNode e \<noteq> ''A'') (edges exDoc)\<rparr>)"
    by (simp only: if_True) blast
  from k have k0: "k = 0" by (auto simp: exDoc_def textNode_def less_Suc_eq)
  have z: \<open>executeDeleteNode exDoc ''Z'' = (failed ''Node with ID "Z" not found'', exDoc)\<close>
    using deleteNode_cascade [of exDoc "''Z''"] h' by (simp only: if_False) simp
  show ?thesis unfolding ex k0 using h z by (simp add: exDoc_def plainEdge_def textNode_def)
qed

subsection \<open>Results and single operations\<close>

lemma success_simps [simp]: "success (failed m) = False" "success (succeeded ids) = True"
  "affectedIds (succeeded ids) = Some ids" "affectedIds (failed m) = None"
  "error (failed m) = Some m" "error (succeeded ids) = None"
  by (simp_all add: failed_def succeeded_def)

lemma applyUpdates_fields:
  "applyUpdates ups old =
     \<lparr>n_id = n_id old, n_type = n_type old,
      n_x = (case u_x ups of None \<Rightarrow> n_x old | Some v \<Rightarrow> v),
      n_y = (case u_y ups of None \<Rightarrow> n_y old | Some v \<Rightarrow> v),
      n_width = (case u_width ups of None \<Rightarrow> n_width old | Some v \<Rightarrow> v),
      n_height = (case u_height ups of None \<Rightarrow> n_height old | Some v \<Rightarrow> v),
      n_color = (case u_color ups of None \<Rightarrow> n_color old | Some v \<Rightarrow> Some v),
      n_text = (if n_type old = ''text''
                then (case u_content ups of None \<Rightarrow> n_text old | Some c \<Rightarrow> Some c)
                else n_text old),
      n_file = n_file old, n_url = n_url old,
      n_label = (if n_type old = ''group''
                 then (case u_label ups of None \<Rightarrow> n_label old | Some l \<Rightarrow> Some l)
                 else n_label old)\<rparr>"
  by (cases old) (simp add: applyUpdates_def Let_def split: option.splits)

lemma n_id_applyUpdates: "n_id (applyUpdates ups old) = n_id old"
  by (simp add: applyUpdates_fields)

lemma filter_update_hidden:
  "k < length xs \<Longrightarrow> \<not> P (xs ! k) \<Longrightarrow> \<not> P y \<Longrightarrow> filter P (xs[k := y]) = filter P xs"
proof (induction xs arbitrary: k)
  case Nil
  then show ?case by simp
next
  case (Cons x xs)
  then show ?case by (cases k) auto
qed

lemma filter_splice_hidden:
  "k < length xs \<Longrightarrow> \<not> P (xs ! k) \<Longrightarrow> filter P (take k xs @ drop (Suc k) xs) = filter P xs"
proof -
  assume k: "k < length xs" and np: "\<not> P (xs ! k)"
  have "filter P xs = filter P (take k xs @ xs ! k # drop (Suc k) xs)"
    using k by (simp add: id_take_nth_drop [symmetric])
  also have "\<dots> = filter P (take k xs @ drop (Suc k) xs)" using np by simp
  finally show ?thesis by simp
qed

lemma filter_filter_hidden:
  "(\<And>x. x \<in> set xs \<Longrightarrow> \<not> Q x \<Longrightarrow> \<not> P x) \<Longrightarrow> filter P (filter Q xs) = filter P xs"
  by (induction xs) auto

lemma distinct_splice:
  "distinct ys \<Longrightarrow> distinct (take k ys @ drop (Suc k) ys)"
proof (cases "k < length ys")
  case True
  assume "distinct ys"
  then have "distinct (take k ys @ ys ! k # drop (Suc k) ys)"
    using True by (simp add: id_take_nth_drop [symmetric])
  then show ?thesis by auto
next
  case False
  assume "distinct ys"
  with False show ?thesis by simp
qed

lemma distinct_map_splice:
  "distinct (map f xs) \<Longrightarrow> distinct (map f (take k xs @ drop (Suc k) xs))"
  using distinct_splice [of "map f xs" k] by (simp add: take_map drop_map)

lemma addNode_frame:
  assumes "executeAddNode d op = (r, d')" "success r"
  shows "affectedIds r = Some [an_id op] \<and> edges d' = edges d \<and>
         an_id op \<notin> n_id ` set (nodes d) \<and>
         (\<exists>n. nodes d' = nodes d @ [n] \<and> n_id n = an_id op)"
  using assms
  by (auto simp: executeAddNode_def pushNode_def baseNode_def list_ex_iff split: if_splits)

lemma updateNode_frame:
  assumes "executeUpdateNode d op = (r, d')" "success r"
  shows "affectedIds r = Some [un_id op] \<and> edges d' = edges d \<and>
         (\<exists>k<length (nodes d). n_id (nodes d ! k) = un_id op \<and>
            (\<exists>n. n_id n = un_id op \<and> nodes d' = (nodes d)[k := n]))"
proof -
  let ?i = "findIndex (\<lambda>n. n_id n = un_id op) (nodes d)"
  from assms have ne: "?i \<noteq> - 1"
    by (auto simp: executeUpdateNode_def Let_def split: if_splits)
  from findIndex_found [OF ne]
  have k: "nat ?i < length (nodes d)" "n_id (nodes d ! nat ?i) = un_id op" by auto
  from assms ne have r: "r = succeeded [un_id op]"
    and d': "d' = d\<lparr>nodes := (nodes d)[nat ?i := applyUpdates (updates op) (nodes d ! nat ?i)]\<rparr>"
    by (auto simp: executeUpdateNode_def Let_def)
  have "n_id (applyUpdates (updates op) (nodes d ! nat ?i)) = un_id op"
    using k(2) by (simp add: n_id_applyUpdates)
  with k r d' show ?thesis by auto
qed

lemma deleteNode_frame:
  assumes "executeDeleteNode d a = (r, d')" "success r"
  shows "affectedIds r = Some (a # map e_id (filter (\<lambda>e. e_fromNode e = a \<or> e_toNode e = a) (edges d))) \<and>
         edges d' = filter (\<lambda>e. \<not> (e_fromNode e = a \<or> e_toNode e = a)) (edges d) \<and>
         (\<exists>k<length (nodes d). n_id (nodes d ! k) = a \<and>
            nodes d' = take k (nodes d) @ drop (Suc k) (nodes d))"
proof -
  let ?i = "findIndex (\<lambda>n. n_id n = a) (nodes d)"
  from assms have ne: "?i \<noteq> - 1"
    by (auto simp: executeDeleteNode_def Let_def split: if_splits)
  from findIndex_found [OF ne]
  have k: "nat ?i < length (nodes d)" "n_id (nodes d ! nat ?i) = a" by auto
  from assms ne have "r = succeeded (a # map e_id (filter (\<lambda>e. e_fromNode e = a \<or> e_toNode e = a) (edges d)))"
    and "d' = \<lparr>nodes = take (nat ?i) (nodes d) @ drop (Suc (nat ?i)) (nodes d),
               edges = filter (\<lambda>e. \<not> (e_fromNode e = a \<or> e_toNode e = a)) (edges d)\<rparr>"
    by (auto simp: executeDeleteNode_def Let_def dropConnected_eq splice1_def)
  with k show ?thesis by auto
qed

lemma addEdge_frame:
  assumes "executeAddEdge d op = (r, d')" "success r"
  shows "affectedIds r = Some [ae_id op] \<and> nodes d' = nodes d \<and>
         (\<exists>e. edges d' = edges d @ [e] \<and> e_id e = ae_id op)"
  using assms
  by (auto simp: executeAddEdge_def split: if_splits)

lemma deleteEdge_frame:
  assumes "executeDeleteEdge d a = (r, d')" "success r"
  shows "affectedIds r = Some [a] \<and> nodes d' = nodes d \<and>
         (\<exists>k<length (edges d). e_id (edges d ! k) = a \<and>
            edges d' = take k (edges d) @ drop (Suc k) (edges d))"
proof -
  let ?i = "findIndex (\<lambda>e. e_id e = a) (edges d)"
  from assms have ne: "?i \<noteq> - 1"
    by (auto simp: executeDeleteEdge_def Let_def split: if_splits)
  from findIndex_found [OF ne]
  have k: "nat ?i < length (edges d)" "e_id (edges d ! nat ?i) = a" by auto
  from assms ne have "r = succeeded [a]"
    and "d' = d\<lparr>edges := take (nat ?i) (edges d) @ drop (Suc (nat ?i)) (edges d)\<rparr>"
    by (auto simp: executeDeleteEdge_def Let_def splice1_def)
  with k show ?thesis by auto
qed

lemma dispatch_failure_unchanged:
  assumes "dispatch d op = (r, d')" and "\<not> success r"
  shows "d' = d"
proof (cases op)
  case (AddNode a)
  with assms show ?thesis by (auto simp: executeAddNode_def split: if_splits)
next
  case (UpdateNode u)
  with assms show ?thesis by (auto simp: executeUpdateNode_def Let_def split: if_splits)
next
  case (DeleteNode a)
  with assms show ?thesis
    by (auto simp: executeDeleteNode_def Let_def dropConnected_eq split: if_splits)
next
  case (AddEdge a)
  with assms show ?thesis by (auto simp: executeAddEdge_def split: if_splits)
next
  case (DeleteEdge a)
  with assms show ?thesis by (auto simp: executeDeleteEdge_def Let_def split: if_splits)
next
  case (UnknownOperation t)
  with assms show ?thesis by auto
qed

lemma runOperations_eq:
  "runOperations d ops acc = (acc @ outcomes d ops, applyAll d ops)"
  by (induction ops arbitrary: d acc) (auto simp: split_beta Let_def)

subsection \<open>Partial merge of node updates\<close>

text \<open>
  C8. If the document has a node with the operation's id, \<^verbatim>\<open>executeUpdateNode\<close>
  succeeds with \<open>affectedIds = [id]\<close> and replaces the (first) such node, at index
  \<open>k\<close>, by a node in which \<open>x\<close>, \<open>y\<close>, \<open>width\<close>, \<open>height\<close> and \<open>color\<close> take
  the payload's value when it has one and keep the old value otherwise, whatever the
  node's type; \<open>text\<close> takes the payload's \<open>content\<close> only when the type is
  \<open>text\<close>, \<open>label\<close> takes the payload's \<open>label\<close> only when the type is \<open>group\<close>;
  \<open>id\<close>, \<open>type\<close>, \<open>file\<close> and \<open>url\<close> are kept. Every other node and all edges
  are as before. If no node has the id, the call fails with
  "Node with ID ... not found" and changes nothing.
\<close>

theorem updateNode_partial_merge:
  \<open>(if \<exists>n\<in>set (nodes canvasData). n_id n = un_id op
     then \<exists>k<length (nodes canvasData).
            n_id (nodes canvasData ! k) = un_id op \<and>
            (\<forall>j<k. n_id (nodes canvasData ! j) \<noteq> un_id op) \<and>
            (let old = nodes canvasData ! k; ups = updates op
             in executeUpdateNode canvasData op =
                  (succeeded [un_id op],
                   canvasData\<lparr>nodes := (nodes canvasData)[k :=
                     \<lparr>n_id = n_id old, n_type = n_type old,
                      n_x = (case u_x ups of None \<Rightarrow> n_x old | Some v \<Rightarrow> v),
                      n_y = (case u_y ups of None \<Rightarrow> n_y old | Some v \<Rightarrow> v),
                      n_width = (case u_width ups of None \<Rightarrow> n_width old | Some v \<Rightarrow> v),
                      n_height = (case u_height ups of None \<Rightarrow> n_height old | Some v \<Rightarrow> v),
                      n_color = (case u_color ups of None \<Rightarrow> n_color old | Some v \<Rightarrow> Some v),
                      n_text = (if n_type old = ''text''
                                then (case u_content ups of None \<Rightarrow> n_text old | Some c \<Rightarrow> Some c)
                                else n_text old),
                      n_file = n_file old, n_url = n_url old,
                      n_label = (if n_type old = ''group''
                                 then (case u_label ups of None \<Rightarrow> n_label old | Some l \<Rightarrow> Some l)
                                 else n_label old)\<rparr>]\<rparr>))
     else executeUpdateNode canvasData op =
            (failed (''Node with ID "'' @ un_id op @ ''" not found''), canvasData))\<close>
proof (cases "\<exists>n\<in>set (nodes canvasData). n_id n = un_id op")
  case False
  then have "findIndex (\<lambda>n. n_id n = un_id op) (nodes canvasData) = - 1"
    by (simp add: findIndex_none)
  with False show ?thesis by (simp add: executeUpdateNode_def)
next
  case True
  let ?ns = "nodes canvasData"
  let ?i = "findIndex (\<lambda>n. n_id n = un_id op) ?ns"
  from True have ne: "?i \<noteq> - 1" by (simp add: findIndex_none)
  from findIndex_found [OF ne]
  have k: "nat ?i < length ?ns" "n_id (?ns ! nat ?i) = un_id op"
    "\<forall>j<nat ?i. n_id (?ns ! j) \<noteq> un_id op"
    by auto
  have ex: "executeUpdateNode canvasData op =
      (succeeded [un_id op],
       canvasData\<lparr>nodes := ?ns[nat ?i := applyUpdates (updates op) (?ns ! nat ?i)]\<rparr>)"
    using ne by (simp add: executeUpdateNode_def Let_def)
  have ex': "executeUpdateNode canvasData op =
      (succeeded [un_id op],
       canvasData\<lparr>nodes := ?ns[nat ?i := applyUpdates (updates op) (?ns ! nat ?i)]\<rparr>)
      \<Longrightarrow> ?thesis"
    unfolding Let_def applyUpdates_fields [symmetric]
    using True k by (simp only: if_True) blast
  from ex' [OF ex] show ?thesis .
qed

theorem updateNode_partial_merge_witness:
  \<open>(\<exists>n\<in>set (nodes exDoc). n_id n = ''A'') \<and>
   executeUpdateNode exDoc \<lparr>un_id = ''A'', updates = exUpdates\<rparr> =
     (succeeded [''A''],
      exDoc\<lparr>nodes := [textNode ''A'' 5 0 ''new'', textNode ''B'' 300 0 ''b'', textNode ''C'' 600 0 ''c'']\<rparr>) \<and>
   executeUpdateNode exDoc \<lparr>un_id = ''Z'', updates = exUpdates\<rparr> =
     (failed ''Node with ID "Z" not found'', exDoc)\<close>
proof -
  let ?op = "\<lparr>un_id = ''A'', updates = exUpdates\<rparr>"
  let ?oz = "\<lparr>un_id = ''Z'', updates = exUpdates\<rparr>"
  have h: "\<exists>n\<in>set (nodes exDoc). n_id n = un_id ?op" by (simp add: exDoc_def textNode_def)
  have h': "\<not> (\<exists>n\<in>set (nodes exDoc). n_id n = un_id ?oz)" by (simp add: exDoc_def textNode_def)
  from updateNode_partial_merge [of exDoc ?op] h
  obtain k where k: "k < length (nodes exDoc)" "n_id (nodes exDoc ! k) = un_id ?op"
    and ex: "executeUpdateNode exDoc ?op =
      (succeeded [un_id ?op],
       exDoc\<lparr>nodes := (nodes exDoc)[k := applyUpdates (updates ?op) (nodes exDoc ! k)]\<rparr>)"
    unfolding Let_def applyUpdates_fields [symmetric] by (simp only: if_True) blast
  from k have k0: "k = 0" by (auto simp: exDoc_def textNode_def less_Suc_eq)
  have z: \<open>executeUpdateNode exDoc ?oz = (failed ''Node with ID "Z" not found'', exDoc)\<close>
    using updateNode_partial_merge [of exDoc ?oz] h' by (simp only: if_False) simp
  have a: "applyUpdates exUpdates (textNode ''A'' 0 0 ''a'') = textNode ''A'' 5 0 ''new''"
    by (simp add: applyUpdates_def exUpdates_def textNode_def)
  show ?thesis unfolding ex k0 using h z a by (simp add: exDoc_def)
qed

subsection \<open>Frame of a successful operation\<close>

text \<open>
  C10. When a single operation succeeds, the nodes whose id is not among the returned
  \<open>affectedIds\<close> are the same list before and after, and so are the edges whose id is
  not among them. In particular \<open>AddNode\<close> appends one node and leaves the edges,
  \<open>UpdateNode\<close> replaces one node with the operation's id and leaves the edges,
  \<open>AddEdge\<close> appends one edge and leaves the nodes, \<open>DeleteEdge\<close> removes one edge
  with the operation's id and leaves the nodes.
\<close>

theorem executor_frame:
  assumes "dispatch d op = (r, d')" and "success r"
  shows "filter (\<lambda>n. n_id n \<notin> affected r) (nodes d') = filter (\<lambda>n. n_id n \<notin> affected r) (nodes d) \<and>
         filter (\<lambda>e. e_id e \<notin> affected r) (edges d') = filter (\<lambda>e. e_id e \<notin> affected r) (edges d) \<and>
         (case op of
            AddNode a \<Rightarrow> edges d' = edges d \<and> (\<exists>n. nodes d' = nodes d @ [n])
          | UpdateNode u \<Rightarrow> edges d' = edges d \<and>
              (\<exists>k<length (nodes d). \<exists>n. n_id (nodes d ! k) = un_id u \<and> nodes d' = (nodes d)[k := n])
          | DeleteNode a \<Rightarrow>
              edges d' = filter (\<lambda>e. e_fromNode e \<noteq> a \<and> e_toNode e \<noteq> a) (edges d) \<and>
              (\<exists>k<length (nodes d). n_id (nodes d ! k) = a \<and>
                 nodes d' = take k (nodes d) @ drop (Suc k) (nodes d))
          | AddEdge a \<Rightarrow> nodes d' = nodes d \<and> (\<exists>e. edges d' = edges d @ [e])
          | DeleteEdge a \<Rightarrow> nodes d' = nodes d \<and>
              (\<exists>k<length (edges d). e_id (edges d ! k) = a \<and>
                 edges d' = take k (edges d) @ drop (Suc k) (edges d))
          | UnknownOperation t \<Rightarrow> False)"
proof (cases op)
  case (AddNode a)
  with assms have "executeAddNode d a = (r, d')" by simp
  from addNode_frame [OF this assms(2)] AddNode show ?thesis
    by (auto simp: affected_def)
next
  case (UpdateNode u)
  with assms have "executeUpdateNode d u = (r, d')" by simp
  from updateNode_frame [OF this assms(2)]
  obtain k n where aff: "affectedIds r = Some [un_id u]" and e: "edges d' = edges d"
    and k: "k < length (nodes d)" "n_id (nodes d ! k) = un_id u" "n_id n = un_id u"
    and n: "nodes d' = (nodes d)[k := n]" by blast
  have "filter (\<lambda>n. n_id n \<notin> affected r) (nodes d') = filter (\<lambda>n. n_id n \<notin> affected r) (nodes d)"
    unfolding n using k aff by (intro filter_update_hidden) (simp_all add: affected_def)
  with e k n UpdateNode show ?thesis by auto
next
  case (DeleteNode a)
  with assms have "executeDeleteNode d a = (r, d')" by simp
  from deleteNode_frame [OF this assms(2)]
  obtain k where aff: "affectedIds r = Some (a # map e_id (filter (\<lambda>e. e_fromNode e = a \<or> e_toNode e = a) (edges d)))"
    and e: "edges d' = filter (\<lambda>e. \<not> (e_fromNode e = a \<or> e_toNode e = a)) (edges d)"
    and k: "k < length (nodes d)" "n_id (nodes d ! k) = a"
    and n: "nodes d' = take k (nodes d) @ drop (Suc k) (nodes d)" by blast
  have 1: "filter (\<lambda>n. n_id n \<notin> affected r) (nodes d') = filter (\<lambda>n. n_id n \<notin> affected r) (nodes d)"
    unfolding n using k aff by (intro filter_splice_hidden) (simp_all add: affected_def)
  have 2: "filter (\<lambda>e. e_id e \<notin> affected r) (edges d') = filter (\<lambda>e. e_id e \<notin> affected r) (edges d)"
    unfolding e using aff by (intro filter_filter_hidden) (auto simp: affected_def)
  from 1 2 e k n DeleteNode show ?thesis by auto
next
  case (AddEdge a)
  with assms have "executeAddEdge d a = (r, d')" by simp
  from addEdge_frame [OF this assms(2)] AddEdge show ?thesis
    by (auto simp: affected_def)
next
  case (DeleteEdge a)
  with assms have "executeDeleteEdge d a = (r, d')" by simp
  from deleteEdge_frame [OF this assms(2)]
  obtain k where aff: "affectedIds r = Some [a]" and n: "nodes d' = nodes d"
    and k: "k < length (edges d)" "e_id (edges d ! k) = a"
    and e: "edges d' = take k (edges d) @ drop (Suc k) (edges d)" by blast
  have "filter (\<lambda>e. e_id e \<notin> affected r) (edges d') = filter (\<lambda>e. e_id e \<notin> affected r) (edges d)"
    unfolding e using k aff by (intro filter_splice_hidden) (simp_all add: affected_def)
  with e k n DeleteEdge show ?thesis by auto
next
  case (UnknownOperation t)
  with assms show ?thesis by auto
qed

theorem executor_frame_witness:
  "dispatch exDoc (DeleteEdge ''e2'') =
     (succeeded [''e2''], exDoc\<lparr>edges := [plainEdge ''e1'' ''A'' ''B'', plainEdge ''e3'' ''B'' ''C'']\<rparr>) \<and>
   success (succeeded [''e2'']) \<and>
   filter (\<lambda>e. e_id e \<notin> affected (succeeded [''e2'']))
     (edges (exDoc\<lparr>edges := [plainEdge ''e1'' ''A'' ''B'', plainEdge ''e3'' ''B'' ''C'']\<rparr>)) =
   filter (\<lambda>e. e_id e \<notin> affected (succeeded [''e2''])) (edges exDoc)"
proof -
  have d: "dispatch exDoc (DeleteEdge ''e2'') =
     (succeeded [''e2''], exDoc\<lparr>edges := [plainEdge ''e1'' ''A'' ''B'', plainEdge ''e3'' ''B'' ''C'']\<rparr>)"
    by (simp add: executeDeleteEdge_def exDoc_def plainEdge_def splice1_def Let_def)
  have s: "success (succeeded [''e2''])" by simp
  from executor_frame [OF d s] d s show ?thesis by simp
qed

subsection \<open>Uniqueness of ids\<close>

text \<open>
  Unique node ids and unique edge ids are kept by every operation, provided an
  \<open>AddEdge\<close> brings an edge id the document does not have yet.
\<close>

lemma ids_unique_preserved:
  assumes n: "distinct (map n_id (nodes d))" and e: "distinct (map e_id (edges d))"
    and run: "dispatch d op = (r, d')"
    and fresh: "\<And>a. op = AddEdge a \<Longrightarrow> ae_id a \<notin> e_id ` set (edges d)"
  shows "distinct (map n_id (nodes d')) \<and> distinct (map e_id (edges d'))"
proof (cases "success r")
  case False
  from dispatch_failure_unchanged [OF run False] n e show ?thesis by simp
next
  case True
  show ?thesis
  proof (cases op)
    case (AddNode a)
    with run have "executeAddNode d a = (r, d')" by simp
    from addNode_frame [OF this True] n e show ?thesis by auto
  next
    case (UpdateNode u)
    with run have "executeUpdateNode d u = (r, d')" by simp
    from updateNode_frame [OF this True]
    obtain k m where ed: "edges d' = edges d" and k: "k < length (nodes d)"
      "n_id (nodes d ! k) = un_id u" "n_id m = un_id u" and nd: "nodes d' = (nodes d)[k := m]"
      by blast
    have "map n_id (nodes d') = (map n_id (nodes d))[k := n_id (nodes d ! k)]"
      unfolding nd using k by (simp add: map_update)
    also have "\<dots> = map n_id (nodes d)" using k(1) by (simp add: list_update_same_conv)
    finally show ?thesis using n e ed by simp
  next
    case (DeleteNode a)
    with run have "executeDeleteNode d a = (r, d')" by simp
    from deleteNode_frame [OF this True]
    obtain k where ed: "edges d' = filter (\<lambda>e. \<not> (e_fromNode e = a \<or> e_toNode e = a)) (edges d)"
      and nd: "nodes d' = take k (nodes d) @ drop (Suc k) (nodes d)" by blast
    show ?thesis unfolding ed nd using n e
      by (intro conjI distinct_map_splice distinct_map_filter)
  next
    case (AddEdge a)
    with run have "executeAddEdge d a = (r, d')" by simp
    from addEdge_frame [OF this True] n e fresh [OF AddEdge] show ?thesis by auto
  next
    case (DeleteEdge a)
    with run have "executeDeleteEdge d a = (r, d')" by simp
    from deleteEdge_frame [OF this True]
    obtain k where nd: "nodes d' = nodes d"
      and ed: "edges d' = take k (edges d) @ drop (Suc k) (edges d)" by blast
    show ?thesis unfolding ed nd using n e
      by (intro conjI distinct_map_splice)
  next
    case (UnknownOperation t)
    with run True show ?thesis by auto
  qed
qed

text \<open>
  C4. The claim is that every operation keeps node ids and edge ids pairwise distinct,
  and that \<open>AddEdge\<close> with an id an edge already has creates no second edge with that
  id. \<^verbatim>\<open>executeAddEdge\<close> has no duplicate check (\<^verbatim>\<open>executeAddNode\<close> has one): on
  the example document, whose ids are distinct, adding an edge with the id \<open>e1\<close>
  succeeds and leaves two edges with the id \<open>e1\<close>.
\<close>

theorem addEdge_reuses_edge_id:
  "distinct (map n_id (nodes exDoc)) \<and> distinct (map e_id (edges exDoc)) \<and>
   success (fst (executeAddEdge exDoc dupEdgeOp)) \<and>
   map e_id (edges (snd (executeAddEdge exDoc dupEdgeOp))) = [''e1'', ''e2'', ''e3'', ''e1''] \<and>
   \<not> distinct (map e_id (edges (snd (executeAddEdge exDoc dupEdgeOp))))"
  by (simp add: executeAddEdge_def exDoc_def dupEdgeOp_def textNode_def plainEdge_def)

subsection \<open>The batch entry point\<close>

text \<open>
  C2. With the canvas read, \<^verbatim>\<open>executeCanvasOperations\<close> runs the operations in order
  on one document (\<^const>\<open>outcomes\<close>, \<^const>\<open>applyAll\<close>); an operation that fails
  leaves the document as it found it, so nothing done before is undone. The document is
  handed to \<^verbatim>\<open>writeCanvasFile\<close> once, after all operations, exactly when some result
  is a success. If that write fails, each success becomes a failure with the error
  "Failed to write canvas file", each failure is kept, and \<open>allSuccess\<close> is false.
  Otherwise the results are returned as they are and \<open>allSuccess\<close> says that every
  result is a success.
\<close>

theorem batch_best_effort:
  "executeCanvasOperations (Some d) writeCanvasFile canvasPath ops =
     (let rs = outcomes d ops; final = applyAll d ops
      in if \<not> (\<exists>r\<in>set rs. success r)
         then \<lparr>results = rs, allSuccess = (\<forall>r\<in>set rs. success r), writeCalls = []\<rparr>
         else if writeCanvasFile final
         then \<lparr>results = rs, allSuccess = (\<forall>r\<in>set rs. success r), writeCalls = [final]\<rparr>
         else \<lparr>results = map (\<lambda>r. if success r
                                     then r\<lparr>success := False, error := Some ''Failed to write canvas file''\<rparr>
                                     else r) rs,
               allSuccess = False, writeCalls = [final]\<rparr>) \<and>
   (\<forall>d0 operation. \<not> success (fst (dispatch d0 operation)) \<longrightarrow> snd (dispatch d0 operation) = d0)"
proof
  show "executeCanvasOperations (Some d) writeCanvasFile canvasPath ops =
     (let rs = outcomes d ops; final = applyAll d ops
      in if \<not> (\<exists>r\<in>set rs. success r)
         then \<lparr>results = rs, allSuccess = (\<forall>r\<in>set rs. success r), writeCalls = []\<rparr>
         else if writeCanvasFile final
         then \<lparr>results = rs, allSuccess = (\<forall>r\<in>set rs. success r), writeCalls = [final]\<rparr>
         else \<lparr>results = map (\<lambda>r. if success r
                                     then r\<lparr>success := False, error := Some ''Failed to write canvas file''\<rparr>
                                     else r) rs,
               allSuccess = False, writeCalls = [final]\<rparr>)"
    by (simp add: executeCanvasOperations_def runOperations_eq Let_def list_ex_iff list_all_iff)
next
  show "\<forall>d0 operation. \<not> success (fst (dispatch d0 operation)) \<longrightarrow> snd (dispatch d0 operation) = d0"
    using dispatch_failure_unchanged by (metis prod.collapse)
qed

text \<open>
  The batch \<open>[AddNode n1, AddNode n1]\<close> on an empty document: one success, one
  duplicate-id failure, one node written; and the same batch when the write fails.
\<close>

theorem batch_best_effort_witness:
  \<open>executeCanvasOperations (Some emptyDoc) (\<lambda>_. True) ''c.canvas'' [AddNode addN1, AddNode addN1] =
     \<lparr>results = [succeeded [''n1''], failed ''Node with ID "n1" already exists''],
      allSuccess = False,
      writeCalls = [\<lparr>nodes = [textNode ''n1'' 0 0 ''hi''], edges = []\<rparr>]\<rparr> \<and>
   executeCanvasOperations (Some emptyDoc) (\<lambda>_. False) ''c.canvas'' [AddNode addN1, AddNode addN1] =
     \<lparr>results = [\<lparr>success = False, error = Some ''Failed to write canvas file'', affectedIds = Some [''n1'']\<rparr>,
                 failed ''Node with ID "n1" already exists''],
      allSuccess = False,
      writeCalls = [\<lparr>nodes = [textNode ''n1'' 0 0 ''hi''], edges = []\<rparr>]\<rparr>\<close>
proof -
  have 1: \<open>executeAddNode emptyDoc addN1 = (succeeded [''n1''], \<lparr>nodes = [textNode ''n1'' 0 0 ''hi''], edges = []\<rparr>)\<close>
    by (simp add: executeAddNode_def emptyDoc_def addN1_def pushNode_def baseNode_def textNode_def orString_def)
  have 2: \<open>executeAddNode \<lparr>nodes = [textNode ''n1'' 0 0 ''hi''], edges = []\<rparr> addN1 =
      (failed ''Node with ID "n1" already exists'', \<lparr>nodes = [textNode ''n1'' 0 0 ''hi''], edges = []\<rparr>)\<close>
    by (simp add: executeAddNode_def addN1_def textNode_def)
  show ?thesis
    using batch_best_effort [of emptyDoc "\<lambda>_. True" "''c.canvas''" "[AddNode addN1, AddNode addN1]"]
      batch_best_effort [of emptyDoc "\<lambda>_. False" "''c.canvas''" "[AddNode addN1, AddNode addN1]"]
    by (simp add: 1 2 Let_def succeeded_def failed_def)
qed

subsection \<open>Containment edges\<close>






subsection \<open>The scanning loop\<close>
















subsection \<open>Emission order\<close>


subsection \<open>Numeric attributes\<close>















subsection \<open>Fragment boundaries\<close>

text \<open>
  C1. The claim is that feeding a text in fragments yields the same operations as
  feeding it in one call. A self-closing group node followed by a text node: fed as two
  fragments, the two tags give two operations; fed in one call, the pattern for
  \<^verbatim>\<open>add_node\<close> with inner content matches from the first tag to the closing tag of the
  second one (\<^verbatim>\<open>[^>]+\<close> accepts the \<^verbatim>\<open>/\<close> of \<^verbatim>\<open>/>\<close>), and the only operation is
  the group node with the second tag as its content. In the other direction, a text
  node whose content holds \<^verbatim>\<open><br/>\<close>: fed in one call it is one operation with its
  content; cut after \<^verbatim>\<open><br/>\<close>, the first fragment already matches the self-closing
  pattern (\<^verbatim>\<open>[^/]+\<close> accepts the \<^verbatim>\<open>>\<close> of the opening tag) and the node is emitted
  without content.
\<close>

theorem stream_boundary_sensitive:
  \<open>fst (processChunks exampleIds newStreamer groupThenText) =
     [AddNode (plainOp ''g'' ''group'' None), AddNode (plainOp ''t'' ''text'' (Some ''Hi''))] \<and>
   fst (processChunks exampleIds newStreamer [concat groupThenText]) =
     [AddNode (plainOp ''g'' ''group'' (Some ''<add_node id="t" type="text">Hi''))] \<and>
   fst (processChunks exampleIds newStreamer [''<add_node id="a" type="text">x<br/>'', '' y</add_node>'']) =
     [AddNode (plainOp ''a'' ''text'' None)] \<and>
   fst (processChunks exampleIds newStreamer [''<add_node id="a" type="text">x<br/> y</add_node>'']) =
     [AddNode (plainOp ''a'' ''text'' (Some ''x<br/> y''))]\<close>
  by code_simp

end
